theory Spec2Isabelle
  imports Complex_Main "HOL-Library.Word" "HOL-Library.Log_Nat"
begin

section \<open>The quality parameter\<close>

text \<open>
  Both variants of the service (the metadata-injecting \<^verbatim>\<open>server.js\<close> and the
  metadata-stripping variant) read the quality field with
  \<^verbatim>\<open>let quality = parseInt(req.body.quality) || 75;
  if (quality < 0 || quality > 100) { quality = 75; }\<close>

  \<^verbatim>\<open>parseInt\<close> is the ECMAScript built-in, called with no radix. It is
  modelled step by step after its definition in the language standard. A JavaScript
  string is modelled as a \<open>string\<close> whose characters are code units below 256, so
  the white space recognised is TAB, LF, VT, FF, CR, SP and NBSP. The result
  \<open>None\<close> is \<^verbatim>\<open>NaN\<close>. A form field that is absent is \<^verbatim>\<open>undefined\<close>,
  which \<^verbatim>\<open>parseInt\<close> first converts to the string \<^verbatim>\<open>"undefined"\<close>.

  The value is kept as an unbounded \<open>int\<close>. JavaScript rounds a very long digit
  string to the nearest Number; rounding is monotone and keeps every integer up to
  \<open>2^53\<close>, so neither the truthiness test nor the comparisons with 0 and 100 can
  tell the difference, and a value that survives them is exact. Negative zero is
  identified with zero: both are falsy.
\<close>

definition isStrWhiteSpaceChar :: "char \<Rightarrow> bool" where
  "isStrWhiteSpaceChar c \<longleftrightarrow>
     (of_char c :: nat) \<in> {0x09, 0x0A, 0x0B, 0x0C, 0x0D, 0x20, 0xA0}"

definition digitValue :: "char \<Rightarrow> nat option" where
  "digitValue c =
     (let n = (of_char c :: nat) in
      if 48 \<le> n \<and> n \<le> 57 then Some (n - 48)
      else if 97 \<le> n \<and> n \<le> 122 then Some (n - 87)
      else if 65 \<le> n \<and> n \<le> 90 then Some (n - 55)
      else None)"

definition isRadixDigit :: "nat \<Rightarrow> char \<Rightarrow> bool" where
  "isRadixDigit R c = (case digitValue c of Some d \<Rightarrow> d < R | None \<Rightarrow> False)"

text \<open>The mathematical integer denoted by a string of radix-\<open>R\<close> digits.\<close>

definition radixValue :: "nat \<Rightarrow> string \<Rightarrow> nat" where
  "radixValue R Z = foldl (\<lambda>acc c. acc * R + (case digitValue c of Some d \<Rightarrow> d | None \<Rightarrow> 0)) 0 Z"

definition toStringArg :: "string option \<Rightarrow> string" where
  "toStringArg v = (case v of None \<Rightarrow> ''undefined'' | Some s \<Rightarrow> s)"

definition parseInt :: "string option \<Rightarrow> int option" where
  "parseInt v =
     (let S0 = dropWhile isStrWhiteSpaceChar (toStringArg v);
          neg = (S0 \<noteq> [] \<and> hd S0 = CHR ''-'');
          S1 = (if S0 \<noteq> [] \<and> (hd S0 = CHR ''+'' \<or> hd S0 = CHR ''-'') then tl S0 else S0);
          hex = (take 2 S1 = ''0x'' \<or> take 2 S1 = ''0X'');
          R = (if hex then 16 else 10);
          S2 = (if hex then drop 2 S1 else S1);
          Z = takeWhile (isRadixDigit R) S2
      in if Z = [] then None
         else Some (if neg then - int (radixValue R Z) else int (radixValue R Z)))"

text \<open>
  \<^verbatim>\<open>x || 75\<close> yields 75 when \<^verbatim>\<open>x\<close> is falsy: \<^verbatim>\<open>NaN\<close> or zero.
\<close>

definition orDefault :: "int option \<Rightarrow> int" where
  "orDefault x = (case x of None \<Rightarrow> 75 | Some n \<Rightarrow> if n = 0 then 75 else n)"

definition effectiveQuality :: "string option \<Rightarrow> int" where
  "effectiveQuality v =
     (let quality = orDefault (parseInt v)
      in if quality < 0 \<or> quality > 100 then 75 else quality)"


section \<open>JavaScript Numbers\<close>

text \<open>
  \<^verbatim>\<open>convertGPSToExif\<close> computes on JavaScript Numbers, that is IEEE 754 binary64
  values. A finite Number is modelled by the rational it denotes, and every arithmetic
  operation is the exact operation followed by rounding to the nearest binary64 value,
  ties to even (\<open>fl\<close>): 53 significant bits, and a least exponent of \<open>-1074\<close> for
  the subnormal range. Two things are left out. Negative zero is identified with zero
  (the only comparison in the function, \<^verbatim>\<open>>= 0\<close>, holds for both). Overflow to
  \<^verbatim>\<open>Infinity\<close> is not represented: in \<^verbatim>\<open>convertGPSToExif\<close> every rounded value
  stays far below the overflow threshold whatever the finite input is (the seconds value
  is at most 25201 in magnitude, lemma \<open>seconds_error\<close> below, and the fraction, the
  minutes and their quotient are smaller).
\<close>

text \<open>\<open>ilog2 x\<close> is \<open>\<lfloor>log\<^sub>2 x\<rfloor>\<close> for positive \<open>x\<close>.\<close>

definition ilog2 :: "rat \<Rightarrow> int" where
  "ilog2 x = (if 1 \<le> x then bitlen \<lfloor>x\<rfloor> - 1 else - bitlen (\<lceil>1 / x\<rceil> - 1))"

definition roundHalfEven :: "rat \<Rightarrow> int" where
  "roundHalfEven y =
     (let f = \<lfloor>y\<rfloor>; r = y - of_int f
      in if r < 1 / 2 then f else if 1 / 2 < r then f + 1 else if even f then f else f + 1)"

definition fl :: "rat \<Rightarrow> rat" where
  "fl x =
     (if x = 0 then 0
      else let e = max (ilog2 \<bar>x\<bar> - 52) (- 1074)
           in of_int (roundHalfEven (x / 2 powi e)) * 2 powi e)"

definition js_sub :: "rat \<Rightarrow> rat \<Rightarrow> rat" where
  "js_sub a b = fl (a - b)"

definition js_mul :: "rat \<Rightarrow> rat \<Rightarrow> rat" where
  "js_mul a b = fl (a * b)"

definition js_div :: "rat \<Rightarrow> rat \<Rightarrow> rat" where
  "js_div a b = fl (a / b)"

text \<open>
  \<^verbatim>\<open>Math.floor\<close> is exact. \<^verbatim>\<open>Math.round\<close> yields the nearest integer, a tie
  going up.
\<close>

definition Math_floor :: "rat \<Rightarrow> int" where
  "Math_floor x = \<lfloor>x\<rfloor>"

definition Math_round :: "rat \<Rightarrow> int" where
  "Math_round x = \<lfloor>x + 1 / 2\<rfloor>"

text \<open>
  \<^verbatim>\<open>x.toFixed(2)\<close> yields a string. Below \<open>10^21\<close> in magnitude it is the decimal
  numeral with two fraction digits of the integer \<open>n\<close> for which \<open>n / 100\<close> is nearest
  to the exact value of \<open>\<bar>x\<bar>\<close>, the larger \<open>n\<close> on a tie, with a minus sign in front
  when \<open>x < 0\<close>: \<open>Decimal2 neg n\<close>. From \<open>10^21\<close> on it is the shortest numeral that
  reads back as \<open>x\<close>: \<open>Shortest x\<close>. \<^verbatim>\<open>parseFloat\<close> reads the string back as the
  nearest Number.
\<close>

datatype fixed_string = Decimal2 bool int | Shortest rat

definition toFixed2 :: "rat \<Rightarrow> fixed_string" where
  "toFixed2 x =
     (if 10 ^ 21 \<le> \<bar>x\<bar> then Shortest x
      else Decimal2 (x < 0) \<lfloor>\<bar>x\<bar> * 100 + 1 / 2\<rfloor>)"

definition parseFloat :: "fixed_string \<Rightarrow> rat" where
  "parseFloat s =
     (case s of
        Shortest x \<Rightarrow> x
      | Decimal2 neg n \<Rightarrow> (if neg then - fl (of_int n / 100) else fl (of_int n / 100)))"

section \<open>The coordinate encoder\<close>

record gps_exif =
  latRef :: char
  lngRef :: char
  lat :: "(int \<times> int) list"
  lng :: "(int \<times> int) list"

definition convertGPSToExif :: "rat \<Rightarrow> rat \<Rightarrow> gps_exif" where
  "convertGPSToExif lat0 lng0 =
     (let latRef0 = (if lat0 \<ge> 0 then CHR ''N'' else CHR ''S'');
          lngRef0 = (if lng0 \<ge> 0 then CHR ''E'' else CHR ''W'');
          absLat = \<bar>lat0\<bar>;
          absLng = \<bar>lng0\<bar>;
          latDeg = Math_floor absLat;
          latMin = Math_floor (js_mul (js_sub absLat (of_int latDeg)) 60);
          latSec = toFixed2 (js_mul (js_sub (js_sub absLat (of_int latDeg))
                                            (js_div (of_int latMin) 60)) 3600);
          lngDeg = Math_floor absLng;
          lngMin = Math_floor (js_mul (js_sub absLng (of_int lngDeg)) 60);
          lngSec = toFixed2 (js_mul (js_sub (js_sub absLng (of_int lngDeg))
                                            (js_div (of_int lngMin) 60)) 3600)
      in \<lparr> latRef = latRef0,
           lngRef = lngRef0,
           lat = [(latDeg, 1), (latMin, 1), (Math_round (js_mul (parseFloat latSec) 100), 100)],
           lng = [(lngDeg, 1), (lngMin, 1), (Math_round (js_mul (parseFloat lngSec) 100), 100)] \<rparr>)"


section \<open>The fixed metadata record\<close>

text \<open>
  \<^verbatim>\<open>FIXED_EXIF\<close>: the two coordinates are the Numbers that the decimal literals
  \<^verbatim>\<open>40.748817\<close> and \<^verbatim>\<open>-73.985428\<close> denote.
\<close>

record fixed_exif =
  Make :: string
  Model :: string
  Software :: string
  GPSLatitude :: rat
  GPSLongitude :: rat

definition FIXED_EXIF :: fixed_exif where
  "FIXED_EXIF =
     \<lparr> Make = ''Canon'',
       Model = ''Canon EOS 5D Mark IV'',
       Software = ''Adobe Photoshop Lightroom'',
       GPSLatitude = fl (40748817 / 1000000),
       GPSLongitude = - fl (73985428 / 1000000) \<rparr>"

text \<open>
  The object handed to \<^verbatim>\<open>piexifjs.dump\<close>: three tables, keyed by the tag constants
  of \<^verbatim>\<open>piexifjs.ImageIFD\<close> and \<^verbatim>\<open>piexifjs.GPSIFD\<close>, in the order of assignment.
\<close>

datatype exif_tag =
  ImageIFD_Make | ImageIFD_Model | ImageIFD_Software
  | GPSIFD_GPSLatitudeRef | GPSIFD_GPSLatitude | GPSIFD_GPSLongitudeRef | GPSIFD_GPSLongitude

datatype exif_value = Ascii string | Rationals "(int \<times> int) list"

record exif_obj =
  ifd_0th :: "(exif_tag \<times> exif_value) list"
  ifd_Exif :: "(exif_tag \<times> exif_value) list"
  ifd_GPS :: "(exif_tag \<times> exif_value) list"

definition buildExifObj :: exif_obj where
  "buildExifObj =
     (let zeroth = [(ImageIFD_Make, Ascii (Make FIXED_EXIF)),
                    (ImageIFD_Model, Ascii (Model FIXED_EXIF)),
                    (ImageIFD_Software, Ascii (Software FIXED_EXIF))];
          gpsData = convertGPSToExif (GPSLatitude FIXED_EXIF) (GPSLongitude FIXED_EXIF);
          gps = [(GPSIFD_GPSLatitudeRef, Ascii [latRef gpsData]),
                 (GPSIFD_GPSLatitude, Rationals (lat gpsData)),
                 (GPSIFD_GPSLongitudeRef, Ascii [lngRef gpsData]),
                 (GPSIFD_GPSLongitude, Rationals (lng gpsData))]
      in \<lparr> ifd_0th = zeroth, ifd_Exif = [], ifd_GPS = gps \<rparr>)"

section \<open>Requests, libraries and observable events\<close>

type_synonym bytes = "8 word list"

text \<open>
  What \<^verbatim>\<open>multer\<close> hands to the route: the uploaded file of the field
  \<^verbatim>\<open>image\<close>, if there is one, and the text field \<^verbatim>\<open>quality\<close>, if present
  (one text; a field sent several times is not modelled).
\<close>

record upload_file =
  originalname :: string
  mimetype :: string
  buffer :: bytes

record request =
  req_file :: "upload_file option"
  body_quality :: "string option"

text \<open>
  The image libraries are parameters. A call either returns a buffer or throws an error,
  of which only the message is kept (\<open>Inl\<close>).
  \<^item> \<open>sharp_jpeg q b\<close> is \<^verbatim>\<open>sharp(b).jpeg({quality: q}).toBuffer()\<close>;
  \<^item> \<open>sharp_webp m q e b\<close> is \<^verbatim>\<open>sharp(b).webp({quality: q, effort: e}).toBuffer()\<close>,
    where \<open>m = Some v\<close> when \<^verbatim>\<open>.withMetadata(v)\<close> is called on the pipeline first
    and \<open>m = None\<close> when it is not called;
  \<^item> \<open>piexif_dump\<close> is \<^verbatim>\<open>piexifjs.dump\<close>;
  \<^item> \<open>piexif_insert x j\<close> is \<^verbatim>\<open>piexifjs.insert\<close> of the EXIF bytes \<open>x\<close> into the
    JPEG \<open>j\<close>. The source passes the JPEG as a base64 data URL and decodes the data URL
    it gets back; the model passes the bytes themselves.
\<close>

record libs =
  sharp_jpeg :: "nat \<Rightarrow> bytes \<Rightarrow> string + bytes"
  sharp_webp :: "bool option \<Rightarrow> nat \<Rightarrow> nat \<Rightarrow> bytes \<Rightarrow> string + bytes"
  piexif_dump :: "exif_obj \<Rightarrow> string + bytes"
  piexif_insert :: "bytes \<Rightarrow> bytes \<Rightarrow> string + bytes"

text \<open>
  What a request does, in order: the calls into the libraries, the console output, and
  the calls on the response object.
\<close>

datatype header_value = HText string | HNumber nat

datatype event =
  SharpJpeg nat bytes
  | PiexifDump exif_obj
  | PiexifInsert bytes bytes
  | SharpWebp "bool option" nat nat bytes
  | ConsoleError string
  | ResJson nat "(string \<times> string) list"
  | ResSet "(string \<times> header_value) list"
  | ResSend bytes

section \<open>The output file name\<close>

text \<open>
  \<^verbatim>\<open>path.parse(originalName).name\<close> is Node's library function, modelled after
  its POSIX implementation: a scan of the path from its end that finds the last path
  component and the last dot in it. The loop runs while \<^verbatim>\<open>i >= start\<close>, and
  \<open>start\<close> is 0 or 1; the second test \<open>i < 0\<close> of the model only serves the
  termination proof.
\<close>

record parse_state =
  startDot :: int
  startPart :: int
  endPos :: int
  matchedSlash :: bool
  preDotState :: int

function parse_loop :: "string \<Rightarrow> int \<Rightarrow> int \<Rightarrow> parse_state \<Rightarrow> parse_state" where
  "parse_loop path start i st =
     (if i < start \<or> i < 0 then st
      else if path ! nat i = CHR ''/'' then
        (if \<not> matchedSlash st then st\<lparr>startPart := i + 1\<rparr>
         else parse_loop path start (i - 1) st)
      else
        parse_loop path start (i - 1)
          (let st1 = (if endPos st = - 1 then st\<lparr>endPos := i + 1, matchedSlash := False\<rparr> else st)
           in if path ! nat i = CHR ''.'' then
                (if startDot st1 = - 1 then st1\<lparr>startDot := i\<rparr>
                 else if preDotState st1 \<noteq> 1 then st1\<lparr>preDotState := 1\<rparr>
                 else st1)
              else if startDot st1 \<noteq> - 1 then st1\<lparr>preDotState := - 1\<rparr>
              else st1))"
  by pat_completeness auto
termination
  by (relation "measure (\<lambda>(path, start, i, st). nat (i + 1))") auto

declare parse_loop.simps [simp del]

definition slice :: "string \<Rightarrow> int \<Rightarrow> int \<Rightarrow> string" where
  "slice s a b = take (nat b - nat a) (drop (nat a) s)"

definition path_parse_name :: "string \<Rightarrow> string" where
  "path_parse_name path =
     (if path = [] then []
      else
        let isAbsolute = (hd path = CHR ''/'');
            start = (if isAbsolute then 1 else 0);
            st = parse_loop path start (int (length path) - 1)
                   \<lparr> startDot = - 1, startPart = 0, endPos = - 1,
                     matchedSlash = True, preDotState = 0 \<rparr>
        in if endPos st \<noteq> - 1 then
             (let start1 = (if startPart st = 0 \<and> isAbsolute then 1 else startPart st)
              in if startDot st = - 1 \<or> preDotState st = 0
                    \<or> (preDotState st = 1 \<and> startDot st = endPos st - 1
                        \<and> startDot st = startPart st + 1)
                 then slice path start1 (endPos st)
                 else slice path start1 (startDot st))
           else [])"


section \<open>The upload filter and the error middleware\<close>

datatype js_error = MulterError string string | PlainError string

definition allowedMimes :: "string list" where
  "allowedMimes = [''image/jpeg'', ''image/jpg'', ''image/png'']"

definition invalidFileType :: string where
  "invalidFileType = ''Invalid file type. Only JPG and PNG are allowed.''"

definition fileFilter :: "upload_file \<Rightarrow> js_error option" where
  "fileFilter f =
     (if mimetype f \<in> set allowedMimes then None else Some (PlainError invalidFileType))"

definition fileSizeLimit :: nat where
  "fileSizeLimit = 50 * 1024 * 1024"

text \<open>
  \<^verbatim>\<open>upload.single('image')\<close>: \<^verbatim>\<open>multer\<close> asks the filter when the file part
  begins and gives up with its error \<^verbatim>\<open>LIMIT_FILE_SIZE\<close> when the part grows
  beyond the limit. Other faults of the multipart stream are not modelled.
\<close>

definition upload_single :: "request \<Rightarrow> js_error + request" where
  "upload_single req =
     (case req_file req of
        None \<Rightarrow> Inr req
      | Some f \<Rightarrow>
          (case fileFilter f of
             Some e \<Rightarrow> Inl e
           | None \<Rightarrow>
               if fileSizeLimit < length (buffer f)
               then Inl (MulterError ''LIMIT_FILE_SIZE'' ''File too large'')
               else Inr req))"

definition errorMiddleware :: "js_error \<Rightarrow> event" where
  "errorMiddleware e =
     (case e of
        MulterError code msg \<Rightarrow>
          if code = ''LIMIT_FILE_SIZE''
          then ResJson 400 [(''error'', ''File size too large. Maximum size is 50MB.'')]
          else ResJson 400 [(''error'', msg)]
      | PlainError msg \<Rightarrow>
          if msg = invalidFileType then ResJson 400 [(''error'', msg)]
          else ResJson 500 [(''error'', ''Internal server error'')])"

section \<open>The route \<^verbatim>\<open>POST /process\<close>\<close>

definition noImageMessage :: string where
  "noImageMessage =
     ''No image file provided. Please upload an image in the '' @ [CHR 0x22] @ ''image''
       @ [CHR 0x22] @ '' field.''"

definition corruptImageMessage :: string where
  "corruptImageMessage =
     ''Invalid or corrupted image file. Please upload a valid JPG or PNG image.''"

definition newFilename :: "upload_file \<Rightarrow> string" where
  "newFilename f = path_parse_name (originalname f) @ ''.webp''"

definition responseHeaders :: "string \<Rightarrow> bytes \<Rightarrow> (string \<times> header_value) list" where
  "responseHeaders name webpBuffer =
     [(''Content-Type'', HText ''image/webp''),
      (''Content-Disposition'',
         HText (''attachment; filename='' @ [CHR 0x22] @ name @ [CHR 0x22])),
      (''Content-Length'', HNumber (length webpBuffer))]"

text \<open>
  \<^verbatim>\<open>injectExifIntoJpeg\<close>: whatever the libraries throw is logged and replaced by
  one fixed error.
\<close>

definition injectionFailed :: string where
  "injectionFailed = ''Failed to inject EXIF metadata into image''"

definition injectExifIntoJpeg :: "libs \<Rightarrow> bytes \<Rightarrow> event list \<times> (string + bytes)" where
  "injectExifIntoJpeg L jpegBuffer =
     (let exifObj = buildExifObj in
      case piexif_dump L exifObj of
        Inl m \<Rightarrow> ([PiexifDump exifObj, ConsoleError m], Inl injectionFailed)
      | Inr exifBytes \<Rightarrow>
          (case piexif_insert L exifBytes jpegBuffer of
             Inl m \<Rightarrow>
               ([PiexifDump exifObj, PiexifInsert exifBytes jpegBuffer, ConsoleError m],
                Inl injectionFailed)
           | Inr newJpeg \<Rightarrow>
               ([PiexifDump exifObj, PiexifInsert exifBytes jpegBuffer], Inr newJpeg)))"

text \<open>
  The route of \<^verbatim>\<open>server.js\<close>, which fabricates metadata. The outer
  \<^verbatim>\<open>try\<close>/\<^verbatim>\<open>catch\<close> of the source guards statements that cannot throw in this
  model (the quality parsing, the file name, the calls on the response object).
\<close>

definition process_fabricate :: "libs \<Rightarrow> request \<Rightarrow> event list" where
  "process_fabricate L req =
     (case req_file req of
        None \<Rightarrow> [ResJson 400 [(''error'', noImageMessage)]]
      | Some f \<Rightarrow>
          (let quality = nat (effectiveQuality (body_quality req));
               name = newFilename f
           in case sharp_jpeg L 95 (buffer f) of
                Inl sharpError \<Rightarrow>
                  [SharpJpeg 95 (buffer f), ResJson 400 [(''error'', corruptImageMessage)]]
              | Inr jpegBuffer \<Rightarrow>
                  (case injectExifIntoJpeg L jpegBuffer of
                     (evs, Inl exifError) \<Rightarrow>
                       SharpJpeg 95 (buffer f) # evs
                         @ [ResJson 500 [(''error'', ''Failed to inject EXIF metadata''),
                                         (''message'', exifError)]]
                   | (evs, Inr jpegWithExif) \<Rightarrow>
                       (case sharp_webp L None quality 4 jpegWithExif of
                          Inl conversionError \<Rightarrow>
                            SharpJpeg 95 (buffer f) # evs
                              @ [SharpWebp None quality 4 jpegWithExif,
                                 ResJson 500 [(''error'', ''Failed to convert image to WebP''),
                                              (''message'', conversionError)]]
                        | Inr webpBuffer \<Rightarrow>
                            SharpJpeg 95 (buffer f) # evs
                              @ [SharpWebp None quality 4 jpegWithExif,
                                 ResSet (responseHeaders name webpBuffer),
                                 ResSend webpBuffer]))))"

text \<open>The route of the second variant, which strips metadata.\<close>

definition process_strip :: "libs \<Rightarrow> request \<Rightarrow> event list" where
  "process_strip L req =
     (case req_file req of
        None \<Rightarrow> [ResJson 400 [(''error'', noImageMessage)]]
      | Some f \<Rightarrow>
          (let quality = nat (effectiveQuality (body_quality req));
               name = newFilename f
           in case sharp_webp L (Some False) quality 4 (buffer f) of
                Inl sharpError \<Rightarrow>
                  [SharpWebp (Some False) quality 4 (buffer f),
                   ResJson 400 [(''error'', corruptImageMessage), (''details'', sharpError)]]
              | Inr webpBuffer \<Rightarrow>
                  [SharpWebp (Some False) quality 4 (buffer f),
                   ResSet (responseHeaders name webpBuffer),
                   ResSend webpBuffer]))"

text \<open>The whole chain: upload middleware, then the route or the error middleware.\<close>

definition app_fabricate :: "libs \<Rightarrow> request \<Rightarrow> event list" where
  "app_fabricate L req =
     (case upload_single req of
        Inl e \<Rightarrow> [errorMiddleware e]
      | Inr req1 \<Rightarrow> process_fabricate L req1)"

definition app_strip :: "libs \<Rightarrow> request \<Rightarrow> event list" where
  "app_strip L req =
     (case upload_single req of
        Inl e \<Rightarrow> [errorMiddleware e]
      | Inr req1 \<Rightarrow> process_strip L req1)"


section \<open>Notions used to state the properties\<close>

subsection \<open>The encoder as the specification words it\<close>

text \<open>
  The specification's algorithm, per axis, on the absolute value \<open>a\<close>: degrees and
  minutes by flooring, seconds rounded to two decimal places (\<open>round2\<close>, an exact
  decimal), then the numerator \<open>round (seconds \<times> 100)\<close> over the denominator 100.
  The subtractions, multiplications and the division are those of Numbers, as in the
  program; the two roundings are the mathematical ones.
\<close>

definition round2 :: "rat \<Rightarrow> rat" where
  "round2 x = (if x < 0 then - (of_int \<lfloor>\<bar>x\<bar> * 100 + 1 / 2\<rfloor> / 100)
               else of_int \<lfloor>\<bar>x\<bar> * 100 + 1 / 2\<rfloor> / 100)"

definition spec_dms :: "rat \<Rightarrow> (int \<times> int) list" where
  "spec_dms a =
     (let degrees = \<lfloor>a\<rfloor>;
          minutes = \<lfloor>js_mul (js_sub a (of_int degrees)) 60\<rfloor>;
          seconds = js_mul (js_sub (js_sub a (of_int degrees)) (js_div (of_int minutes) 60)) 3600
      in [(degrees, 1), (minutes, 1), (\<lfloor>round2 seconds * 100 + 1 / 2\<rfloor>, 100)])"

definition spec_encode :: "rat \<Rightarrow> rat \<Rightarrow> gps_exif" where
  "spec_encode lat0 lng0 =
     \<lparr> latRef = (if 0 \<le> lat0 then CHR ''N'' else CHR ''S''),
       lngRef = (if 0 \<le> lng0 then CHR ''E'' else CHR ''W''),
       lat = spec_dms \<bar>lat0\<bar>,
       lng = spec_dms \<bar>lng0\<bar> \<rparr>"

text \<open>
  Reading a coordinate back from a hemisphere reference and a triplet of rationals,
  in exact arithmetic.
\<close>

definition dmsValue :: "(int \<times> int) list \<Rightarrow> rat" where
  "dmsValue t =
     (case t of
        [(d, dd), (m, md), (sn, sd)] \<Rightarrow>
          of_int d / of_int dd + (of_int m / of_int md) / 60 + (of_int sn / of_int sd) / 3600
      | _ \<Rightarrow> 0)"

definition reconstruct :: "char \<Rightarrow> (int \<times> int) list \<Rightarrow> rat" where
  "reconstruct ref t = (if ref = CHR ''S'' \<or> ref = CHR ''W'' then - dmsValue t else dmsValue t)"

subsection \<open>Quality values the specification calls unusable\<close>




definition webpQualities :: "event list \<Rightarrow> nat list" where
  "webpQualities tr = concat (map (\<lambda>ev. case ev of SharpWebp m q e b \<Rightarrow> [q] | _ \<Rightarrow> []) tr)"

subsection \<open>Reading a trace\<close>

definition isResponse :: "event \<Rightarrow> bool" where
  "isResponse ev = (case ev of ResJson c p \<Rightarrow> True | ResSend b \<Rightarrow> True | _ \<Rightarrow> False)"

definition isSend :: "event \<Rightarrow> bool" where
  "isSend ev = (case ev of ResSend b \<Rightarrow> True | _ \<Rightarrow> False)"

definition isSet :: "event \<Rightarrow> bool" where
  "isSet ev = (case ev of ResSet hs \<Rightarrow> True | _ \<Rightarrow> False)"

text \<open>
  An error response: a JSON body sent with status 400 or 500 that has a field
  \<^verbatim>\<open>error\<close>.
\<close>

definition isErrorResponse :: "event \<Rightarrow> bool" where
  "isErrorResponse ev =
     (case ev of
        ResJson c p \<Rightarrow> (c = 400 \<or> c = 500) \<and> map_of p ''error'' \<noteq> None
      | _ \<Rightarrow> False)"

definition stageResult :: "libs \<Rightarrow> event \<Rightarrow> (string + bytes) option" where
  "stageResult L ev =
     (case ev of
        SharpJpeg q b \<Rightarrow> Some (sharp_jpeg L q b)
      | PiexifDump obj \<Rightarrow> Some (piexif_dump L obj)
      | PiexifInsert x j \<Rightarrow> Some (piexif_insert L x j)
      | SharpWebp m q e b \<Rightarrow> Some (sharp_webp L m q e b)
      | _ \<Rightarrow> None)"

definition isStageCall :: "libs \<Rightarrow> event \<Rightarrow> bool" where
  "isStageCall L ev = (stageResult L ev \<noteq> None)"

definition stageFailed :: "libs \<Rightarrow> event \<Rightarrow> bool" where
  "stageFailed L ev = (case stageResult L ev of Some (Inl m) \<Rightarrow> True | _ \<Rightarrow> False)"

text \<open>
  \<open>stops_at_failure\<close>: once a call into a library has failed, the rest of the trace
  holds no further call, sets no headers and sends no bytes.
\<close>

fun stops_at_failure :: "libs \<Rightarrow> event list \<Rightarrow> bool" where
  "stops_at_failure L [] = True"
| "stops_at_failure L (ev # rest) =
     (if stageFailed L ev
      then list_all (\<lambda>e. \<not> isStageCall L e \<and> \<not> isSet e \<and> \<not> isSend e) rest
      else stops_at_failure L rest)"

definition errorPayloads :: "event list \<Rightarrow> (string \<times> string) list list" where
  "errorPayloads tr = concat (map (\<lambda>ev. case ev of ResJson c p \<Rightarrow> [p] | _ \<Rightarrow> []) tr)"

text \<open>
  \<open>fail_stop\<close>: a trace ends with its one and only response, which either sends the
  image bytes or is an error response; nothing runs after a failed call; bytes are sent
  only when no call has failed; and when a call has failed the response is an error
  response.
\<close>

definition fail_stop :: "libs \<Rightarrow> event list \<Rightarrow> bool" where
  "fail_stop L tr \<longleftrightarrow>
     length (filter isResponse tr) = 1 \<and> isResponse (last tr) \<and> stops_at_failure L tr
     \<and> (list_ex isSend tr \<longrightarrow> \<not> list_ex (stageFailed L) tr)
     \<and> (list_ex (stageFailed L) tr \<longrightarrow> isErrorResponse (last tr))
     \<and> (isSend (last tr) \<or> isErrorResponse (last tr))"

text \<open>
  The documented default of \<^verbatim>\<open>sharp\<close>: an output produced without a call of
  \<^verbatim>\<open>withMetadata\<close> carries no metadata. \<open>readExif\<close> stands for a reader of the
  metadata embedded in a buffer.
\<close>

definition strips_metadata_by_default :: "libs \<Rightarrow> (bytes \<Rightarrow> exif_obj option) \<Rightarrow> bool" where
  "strips_metadata_by_default L readExif \<longleftrightarrow>
     (\<forall>q e b out. sharp_webp L None q e b = Inr out \<longrightarrow> readExif out = None)"

subsection \<open>Stand-ins for the libraries and sample requests\<close>

text \<open>
  A small stand-in for the four library calls, to run the routes on concrete requests:
  an empty buffer is rejected, as \<^verbatim>\<open>sharp\<close> does, and the insertion splices the
  EXIF bytes after the first two bytes of a buffer that starts with the JPEG marker.
\<close>

definition stub_libs :: libs where
  "stub_libs =
     \<lparr> sharp_jpeg = (\<lambda>q b. if b = [] then Inl ''Input Buffer is empty''
                             else Inr [0xFF, 0xD8, 0xFF, 0xD9]),
       sharp_webp = (\<lambda>m q e b. if b = [] then Inl ''Input Buffer is empty''
                                 else Inr [0x52, 0x49, 0x46, 0x46]),
       piexif_dump = (\<lambda>obj. Inr [0x45, 0x78, 0x69, 0x66]),
       piexif_insert = (\<lambda>x j. if take 2 j = [0xFF, 0xD8]
                                then Inr (take 2 j @ [0xFF, 0xE1] @ x @ drop 2 j)
                                else Inl ''Given data is not jpeg.'') \<rparr>"

text \<open>A stand-in for a metadata reader: it finds a record where an EXIF segment starts.\<close>

definition stub_readExif :: "bytes \<Rightarrow> exif_obj option" where
  "stub_readExif b = (if take 2 (drop 2 b) = [0xFF, 0xE1] then Some buildExifObj else None)"

definition sample_upload :: upload_file where
  "sample_upload =
     \<lparr> originalname = ''photo.png'', mimetype = ''image/png'',
       buffer = [0x89, 0x50, 0x4E, 0x47] \<rparr>"

definition empty_upload :: upload_file where
  "empty_upload = \<lparr> originalname = ''broken.jpg'', mimetype = ''image/jpeg'', buffer = [] \<rparr>"

definition sample_request :: "string option \<Rightarrow> request" where
  "sample_request q = \<lparr> req_file = Some sample_upload, body_quality = q \<rparr>"

definition corrupt_request :: request where
  "corrupt_request = \<lparr> req_file = Some empty_upload, body_quality = None \<rparr>"


section \<open>Properties of the Number model\<close>

lemma ilog2_lower:
  assumes "0 < x"
  shows "2 powi (ilog2 x) \<le> x"
proof (cases "1 \<le> x")
  case True
  then have pos: "0 < \<lfloor>x\<rfloor>" by linarith
  have nn: "0 \<le> bitlen \<lfloor>x\<rfloor> - 1" using pos by (simp add: bitlen_alt_def)
  have "(2::int) ^ nat (bitlen \<lfloor>x\<rfloor> - 1) \<le> \<lfloor>x\<rfloor>" using bitlen_bounds[OF pos] by simp
  then have "(of_int ((2::int) ^ nat (bitlen \<lfloor>x\<rfloor> - 1)) :: rat) \<le> of_int \<lfloor>x\<rfloor>"
    by (simp only: of_int_le_iff)
  then have "(2::rat) ^ nat (bitlen \<lfloor>x\<rfloor> - 1) \<le> of_int \<lfloor>x\<rfloor>" by simp
  also have "\<dots> \<le> x" by simp
  finally show ?thesis using True nn by (simp add: ilog2_def power_int_nonneg_exp)
next
  case False
  define m where "m = \<lceil>1 / x\<rceil> - 1"
  have y: "1 < 1 / x" using False assms by simp
  then have mpos: "0 < m" unfolding m_def by linarith
  have "m < 2 ^ nat (bitlen m)" using bitlen_bounds[OF mpos] by simp
  then have "m + 1 \<le> 2 ^ nat (bitlen m)" by simp
  then have "(of_int (m + 1) :: rat) \<le> of_int (2 ^ nat (bitlen m))"
    by (simp only: of_int_le_iff)
  then have *: "(of_int (m + 1) :: rat) \<le> 2 ^ nat (bitlen m)" by simp
  have "1 / x \<le> of_int (m + 1)" unfolding m_def by simp
  with * have "1 / x \<le> 2 ^ nat (bitlen m)" by linarith
  then have "1 / 2 ^ nat (bitlen m) \<le> x" using assms
    by (simp add: field_simps)
  moreover have "2 powi (ilog2 x) = (1::rat) / 2 ^ nat (bitlen m)"
    using False bitlen_nonneg[of m]
    by (simp add: ilog2_def m_def power_int_minus_divide power_int_nonneg_exp)
  ultimately show ?thesis by simp
qed

lemma ilog2_upper:
  assumes "0 < x"
  shows "x < 2 powi (ilog2 x + 1)"
proof (cases "1 \<le> x")
  case True
  then have pos: "0 < \<lfloor>x\<rfloor>" by linarith
  have nn: "0 \<le> bitlen \<lfloor>x\<rfloor>" by (rule bitlen_nonneg)
  have "\<lfloor>x\<rfloor> < 2 ^ nat (bitlen \<lfloor>x\<rfloor>)" using bitlen_bounds[OF pos] by simp
  then have "\<lfloor>x\<rfloor> + 1 \<le> 2 ^ nat (bitlen \<lfloor>x\<rfloor>)" by simp
  then have "(of_int (\<lfloor>x\<rfloor> + 1) :: rat) \<le> of_int (2 ^ nat (bitlen \<lfloor>x\<rfloor>))"
    by (simp only: of_int_le_iff)
  then have "(of_int (\<lfloor>x\<rfloor> + 1) :: rat) \<le> 2 ^ nat (bitlen \<lfloor>x\<rfloor>)" by simp
  moreover have "x < of_int (\<lfloor>x\<rfloor> + 1)" by linarith
  ultimately have "x < 2 ^ nat (bitlen \<lfloor>x\<rfloor>)" by linarith
  then show ?thesis using True nn by (simp add: ilog2_def power_int_nonneg_exp)
next
  case False
  define m where "m = \<lceil>1 / x\<rceil> - 1"
  have y: "1 < 1 / x" using False assms by simp
  then have mpos: "0 < m" unfolding m_def by linarith
  have b1: "1 \<le> bitlen m" using mpos by (simp add: bitlen_alt_def)
  have "2 ^ nat (bitlen m - 1) \<le> m" using bitlen_bounds[OF mpos] by simp
  then have "(of_int (2 ^ nat (bitlen m - 1)) :: rat) \<le> of_int m"
    by (simp only: of_int_le_iff)
  then have *: "(2::rat) ^ nat (bitlen m - 1) \<le> of_int m" by simp
  have "of_int m < 1 / x" unfolding m_def by linarith
  with * have "2 ^ nat (bitlen m - 1) < 1 / x" by linarith
  then have "x < 1 / 2 ^ nat (bitlen m - 1)" using assms
    by (simp add: field_simps)
  moreover have "2 powi (ilog2 x + 1) = (1::rat) / 2 ^ nat (bitlen m - 1)"
  proof -
    have "ilog2 x + 1 = - (bitlen m - 1)" using False by (simp add: ilog2_def m_def)
    then have "2 powi (ilog2 x + 1) = (1::rat) / 2 powi (bitlen m - 1)"
      by (simp only: power_int_minus_divide)
    then show ?thesis using b1 by (simp add: power_int_nonneg_exp)
  qed
  ultimately show ?thesis by simp
qed

lemma roundHalfEven_error: "\<bar>of_int (roundHalfEven y) - y\<bar> \<le> 1 / 2"
proof -
  have a: "of_int \<lfloor>y\<rfloor> \<le> y" and b: "y < of_int \<lfloor>y\<rfloor> + 1" by linarith+
  show ?thesis
    unfolding roundHalfEven_def Let_def using a b
    by (simp split: if_splits)
qed

lemma fl_error_exp:
  assumes "x \<noteq> 0"
  shows "\<bar>fl x - x\<bar> \<le> 2 powi (max (ilog2 \<bar>x\<bar> - 52) (- 1074)) / 2"
proof -
  define e where "e = max (ilog2 \<bar>x\<bar> - 52) (- 1074)"
  define p :: rat where "p = 2 powi e"
  have ppos: "0 < p" unfolding p_def by simp
  have "fl x - x = (of_int (roundHalfEven (x / p)) - x / p) * p"
    using assms ppos by (simp add: fl_def Let_def e_def p_def algebra_simps)
  then have "\<bar>fl x - x\<bar> = \<bar>of_int (roundHalfEven (x / p)) - x / p\<bar> * p"
    using ppos by (simp add: abs_mult)
  also have "\<dots> \<le> (1 / 2) * p"
    using roundHalfEven_error[of "x / p"] ppos by (intro mult_right_mono) simp_all
  finally show ?thesis by (simp add: p_def e_def)
qed

text \<open>
  \<open>fl x\<close> is a binary64 value: an integer significand of magnitude at most \<open>2^53\<close>
  times a power of two whose exponent is at least \<open>-1074\<close>, and by \<open>fl_error_exp\<close>
  it lies within half a unit of that exponent from \<open>x\<close>.
\<close>

lemma roundHalfEven_mono_bound:
  assumes "\<bar>y\<bar> \<le> of_int N"
  shows "\<bar>roundHalfEven y\<bar> \<le> N"
proof -
  have e: "\<bar>of_int (roundHalfEven y) - y\<bar> \<le> 1 / 2" by (rule roundHalfEven_error)
  have "\<bar>(of_int (roundHalfEven y) :: rat)\<bar> \<le> of_int N + 1 / 2" using e assms by linarith
  then have "(of_int \<bar>roundHalfEven y\<bar> :: rat) < of_int (N + 1)" by simp
  then have "\<bar>roundHalfEven y\<bar> < N + 1" by (simp only: of_int_less_iff)
  then show ?thesis by simp
qed

lemma fl_significand:
  assumes "x \<noteq> 0"
  shows "\<bar>roundHalfEven (x / 2 powi (max (ilog2 \<bar>x\<bar> - 52) (- 1074)))\<bar> \<le> 2 ^ 53"
proof -
  define k where "k = ilog2 \<bar>x\<bar>"
  define e where "e = max (k - 52) (- 1074)"
  have xpos: "0 < \<bar>x\<bar>" using assms by simp
  have up: "\<bar>x\<bar> < 2 powi (k + 1)" unfolding k_def by (rule ilog2_upper[OF xpos])
  have "(2::rat) powi (k + 1) \<le> 2 powi (e + 53)"
    by (rule power_int_increasing) (simp_all add: e_def)
  then have "\<bar>x\<bar> \<le> 2 powi (e + 53)" using up by linarith
  also have "(2::rat) powi (e + 53) = 2 powi e * 2 ^ 53"
    by (simp add: power_int_add)
  finally have "\<bar>x\<bar> / 2 powi e \<le> 2 ^ 53"
    by (simp add: field_simps)
  then have "\<bar>x / 2 powi e\<bar> \<le> of_int (2 ^ 53)" by (simp add: abs_divide) 
  then have "\<bar>roundHalfEven (x / 2 powi e)\<bar> \<le> 2 ^ 53" by (rule roundHalfEven_mono_bound)
  then show ?thesis by (simp add: e_def k_def)
qed

text \<open>
  The rounding error of one operation: half a unit in the last place, which is at most
  \<open>B / 2^53\<close> for a value of magnitude at most \<open>B\<close>.
\<close>

lemma fl_error:
  assumes "\<bar>x\<bar> \<le> B" and "1 \<le> B"
  shows "\<bar>fl x - x\<bar> \<le> B / 2 ^ 53"
proof (cases "x = 0")
  case True
  then show ?thesis using assms by (simp add: fl_def)
next
  case False
  then have xpos: "0 < \<bar>x\<bar>" by simp
  define k where "k = ilog2 \<bar>x\<bar>"
  have low: "2 powi k \<le> \<bar>x\<bar>" unfolding k_def by (rule ilog2_lower[OF xpos])
  have err: "\<bar>fl x - x\<bar> \<le> 2 powi (max (k - 52) (- 1074)) / 2"
    unfolding k_def by (rule fl_error_exp[OF False])
  show ?thesis
  proof (cases "k - 52 \<ge> - 1074")
    case True
    then have "max (k - 52) (- 1074) = k - 52" by simp
    moreover have "(2::rat) powi (k - 52) = 2 powi k / 2 ^ 52"
      by (simp add: power_int_diff)
    ultimately have "\<bar>fl x - x\<bar> \<le> 2 powi k / 2 ^ 53" using err by simp
    also have "\<dots> \<le> B / 2 ^ 53" using low assms by (simp add: divide_right_mono)
    finally show ?thesis .
  next
    case False
    then have "max (k - 52) (- 1074) = - 1074" by simp
    then have "\<bar>fl x - x\<bar> \<le> 2 powi (- 1074) / 2" using err by simp
    also have "(2::rat) powi (- 1074) / 2 \<le> 1 / 2 ^ 53"
      by (simp add: power_int_minus_divide)
    also have "\<dots> \<le> B / 2 ^ 53" using assms by (simp add: divide_right_mono)
    finally show ?thesis .
  qed
qed

lemma Math_round_near:
  assumes "\<bar>y - of_int n\<bar> < 1 / 2"
  shows "Math_round y = n"
proof -
  have "of_int n \<le> y + 1 / 2" "y + 1 / 2 < of_int n + 1" using assms by linarith+
  then show ?thesis unfolding Math_round_def by (rule floor_unique)
qed

text \<open>
  Reading a two-decimal numeral back as a Number and multiplying it by 100 lands within
  a half of the integer of hundredths, with either sign.
\<close>

lemma hundredths_readback:
  assumes "0 \<le> n" and "n \<le> 2 ^ 27"
  shows "\<bar>fl (fl (of_int n / 100) * 100) - of_int n\<bar> < 1 / 2"
    and "\<bar>fl (- fl (of_int n / 100) * 100) - of_int (- n)\<bar> < 1 / 2"
proof -
  define p where "p = fl (of_int n / 100)"
  define r :: rat where "r = of_int n"
  have "r \<le> of_int (2 ^ 27)" unfolding r_def using assms(2) by (simp only: of_int_le_iff)
  then have r1: "r \<le> 134217728" by simp
  have r0: "0 \<le> r" unfolding r_def using assms(1) by simp
  have "\<bar>r / 100\<bar> \<le> 2097152" using r0 r1 by simp
  then have "\<bar>fl (r / 100) - r / 100\<bar> \<le> 2097152 / 2 ^ 53"
    by (rule fl_error) simp
  then have e1: "\<bar>p - r / 100\<bar> \<le> 1 / 4294967296" unfolding p_def r_def by simp
  have pb: "\<bar>p * 100\<bar> \<le> 268435456" using e1 r0 r1 by linarith
  have "\<bar>fl (p * 100) - p * 100\<bar> \<le> 268435456 / 2 ^ 53"
    using pb by (rule fl_error) simp
  then have e2: "\<bar>fl (p * 100) - p * 100\<bar> \<le> 1 / 33554432" by simp
  have pb': "\<bar>- p * 100\<bar> \<le> 268435456" using pb by simp
  have "\<bar>fl (- p * 100) - (- p * 100)\<bar> \<le> 268435456 / 2 ^ 53"
    using pb' by (rule fl_error) simp
  then have e3: "\<bar>fl (- p * 100) - (- p * 100)\<bar> \<le> 1 / 33554432" by simp
  have "\<bar>fl (p * 100) - r\<bar> < 1 / 2" using e1 e2 by linarith
  then show "\<bar>fl (fl (of_int n / 100) * 100) - of_int n\<bar> < 1 / 2"
    unfolding p_def r_def .
  have "\<bar>fl (- p * 100) - (- r)\<bar> < 1 / 2" using e1 e3 by linarith
  then show "\<bar>fl (- fl (of_int n / 100) * 100) - of_int (- n)\<bar> < 1 / 2"
    unfolding p_def r_def by simp
qed

section \<open>Concrete runs\<close>

lemmas parseInt_unfold =
  parseInt_def toStringArg_def isStrWhiteSpaceChar_def isRadixDigit_def digitValue_def
  radixValue_def

lemma parseInt_0: "parseInt (Some ''0'') = Some 0"
  by (simp add: parseInt_unfold)



lemma parseInt_absent: "parseInt None = None"
  by (simp add: parseInt_unfold)


lemmas upload_unfold =
  upload_single_def fileFilter_def allowedMimes_def fileSizeLimit_def sample_request_def
  sample_upload_def corrupt_request_def empty_upload_def

lemma sample_fabricate_run:
  "app_fabricate stub_libs (sample_request q) =
     [SharpJpeg 95 [0x89, 0x50, 0x4E, 0x47],
      PiexifDump buildExifObj,
      PiexifInsert [0x45, 0x78, 0x69, 0x66] [0xFF, 0xD8, 0xFF, 0xD9],
      SharpWebp None (nat (effectiveQuality q)) 4
        [0xFF, 0xD8, 0xFF, 0xE1, 0x45, 0x78, 0x69, 0x66, 0xFF, 0xD9],
      ResSet (responseHeaders ''photo.webp'' [0x52, 0x49, 0x46, 0x46]),
      ResSend [0x52, 0x49, 0x46, 0x46]]"
  by (simp add: app_fabricate_def upload_unfold process_fabricate_def stub_libs_def
      injectExifIntoJpeg_def newFilename_def path_parse_name_def slice_def parse_loop.simps)

lemma sample_strip_run:
  "app_strip stub_libs (sample_request q) =
     [SharpWebp (Some False) (nat (effectiveQuality q)) 4 [0x89, 0x50, 0x4E, 0x47],
      ResSet (responseHeaders ''photo.webp'' [0x52, 0x49, 0x46, 0x46]),
      ResSend [0x52, 0x49, 0x46, 0x46]]"
  by (simp add: app_strip_def upload_unfold process_strip_def stub_libs_def
      newFilename_def path_parse_name_def slice_def parse_loop.simps)

lemma corrupt_fabricate_run:
  "app_fabricate stub_libs corrupt_request =
     [SharpJpeg 95 [], ResJson 400 [(''error'', corruptImageMessage)]]"
  by (simp add: app_fabricate_def upload_unfold process_fabricate_def stub_libs_def)

lemma corrupt_strip_run:
  "app_strip stub_libs corrupt_request =
     [SharpWebp (Some False) 75 4 [],
      ResJson 400 [(''error'', corruptImageMessage), (''details'', ''Input Buffer is empty'')]]"
  by (simp add: app_strip_def upload_unfold process_strip_def stub_libs_def
      effectiveQuality_def parseInt_absent orDefault_def)

section \<open>The quality parameter: properties\<close>


lemma effectiveQuality_range: "1 \<le> effectiveQuality v \<and> effectiveQuality v \<le> 100"
  by (auto simp: effectiveQuality_def orDefault_def Let_def split: option.splits)



lemma webpQualities_process_fabricate:
  "set (webpQualities (process_fabricate L req))
     \<subseteq> {nat (effectiveQuality (body_quality req))}"
  by (auto simp: webpQualities_def process_fabricate_def injectExifIntoJpeg_def Let_def
      split: option.splits sum.splits prod.splits event.splits)

lemma webpQualities_process_strip:
  "set (webpQualities (process_strip L req))
     \<subseteq> {nat (effectiveQuality (body_quality req))}"
  by (auto simp: webpQualities_def process_strip_def Let_def
      split: option.splits sum.splits prod.splits event.splits)

lemma webpQualities_errorMiddleware: "webpQualities [errorMiddleware e] = []"
  by (simp add: webpQualities_def errorMiddleware_def split: js_error.splits)

lemma upload_single_keeps: "upload_single req = Inr req1 \<Longrightarrow> req1 = req"
  by (auto simp: upload_single_def split: option.splits if_splits)


lemma webpQualities_app_fabricate:
  "set (webpQualities (app_fabricate L req)) \<subseteq> {nat (effectiveQuality (body_quality req))}"
proof (cases "upload_single req")
  case (Inl e)
  then show ?thesis by (simp add: app_fabricate_def webpQualities_errorMiddleware)
next
  case (Inr r)
  then have "r = req" by (rule upload_single_keeps)
  with Inr show ?thesis
    using webpQualities_process_fabricate[of L req] by (simp add: app_fabricate_def)
qed

lemma webpQualities_app_strip:
  "set (webpQualities (app_strip L req)) \<subseteq> {nat (effectiveQuality (body_quality req))}"
proof (cases "upload_single req")
  case (Inl e)
  then show ?thesis by (simp add: app_strip_def webpQualities_errorMiddleware)
next
  case (Inr r)
  then have "r = req" by (rule upload_single_keeps)
  with Inr show ?thesis
    using webpQualities_process_strip[of L req] by (simp add: app_strip_def)
qed



lemma parseInt_1e3: "parseInt (Some ''1e3'') = Some 1"
  by (simp add: parseInt_unfold)




text \<open>
  C7. The quality string \<^verbatim>\<open>"0"\<close> parses to the integer 0, which lies inside
  \<open>[0,100]\<close>, and yet the effective quality is the default 75, because a parsed 0 is
  falsy like \<^verbatim>\<open>NaN\<close>. No quality field at all yields the effective quality 0, so
  no request of either variant reaches a WebP encoding at quality 0.
\<close>

theorem quality_zero_is_default:
  "parseInt (Some ''0'') = Some 0
   \<and> effectiveQuality (Some ''0'') = 75
   \<and> (\<forall>v. effectiveQuality v \<noteq> 0)
   \<and> (\<forall>L req. 0 \<notin> set (webpQualities (app_fabricate L req))
              \<and> 0 \<notin> set (webpQualities (app_strip L req)))"
proof -
  have z: "\<And>v. effectiveQuality v \<noteq> 0"
    using effectiveQuality_range by (metis not_one_le_zero)
  have nz: "\<And>v. nat (effectiveQuality v) \<noteq> 0"
    using effectiveQuality_range by (metis nat_0_iff not_one_le_zero order.trans zero_le_one) 
  have "\<And>L req. 0 \<notin> set (webpQualities (app_fabricate L req))"
    using webpQualities_app_fabricate nz by (metis empty_iff insert_iff subsetD)
  moreover have "\<And>L req. 0 \<notin> set (webpQualities (app_strip L req))"
    using webpQualities_app_strip nz by (metis empty_iff insert_iff subsetD)
  ultimately show ?thesis
    using z by (simp add: parseInt_0 effectiveQuality_def orDefault_def)
qed


section \<open>The routes: properties\<close>

lemmas trace_unfold =
  fail_stop_def isResponse_def isSend_def isSet_def isErrorResponse_def stageResult_def
  isStageCall_def stageFailed_def

lemma errorMiddleware_cases: "\<exists>c p. errorMiddleware e = ResJson c p"
  by (simp add: errorMiddleware_def split: js_error.splits)

lemma errorMiddleware_error: "isErrorResponse (errorMiddleware e)"
  by (simp add: errorMiddleware_def isErrorResponse_def split: js_error.splits)

lemma fail_stop_process_fabricate: "fail_stop L (process_fabricate L req)"
  by (auto simp: trace_unfold process_fabricate_def injectExifIntoJpeg_def Let_def
      split: option.splits sum.splits)

lemma fail_stop_process_strip: "fail_stop L (process_strip L req)"
  by (auto simp: trace_unfold process_strip_def Let_def split: option.splits sum.splits)

lemma fail_stop_errorMiddleware: "fail_stop L [errorMiddleware e]"
  using errorMiddleware_cases[of e] errorMiddleware_error[of e]
  by (auto simp: fail_stop_def isResponse_def isSend_def stageResult_def stageFailed_def)

lemma fail_stop_app: "fail_stop L (app_fabricate L req)" "fail_stop L (app_strip L req)"
  by (auto simp: app_fabricate_def app_strip_def fail_stop_errorMiddleware
      fail_stop_process_fabricate fail_stop_process_strip split: sum.splits)

text \<open>A trace that sends bytes is the full chain, each call fed by the one before.\<close>

lemma send_process_fabricate:
  assumes "ResSend out \<in> set (process_fabricate L req)"
  shows "\<exists>f j x j'. req_file req = Some f
           \<and> sharp_jpeg L 95 (buffer f) = Inr j
           \<and> piexif_dump L buildExifObj = Inr x
           \<and> piexif_insert L x j = Inr j'
           \<and> sharp_webp L None (nat (effectiveQuality (body_quality req))) 4 j' = Inr out
           \<and> process_fabricate L req =
               [SharpJpeg 95 (buffer f), PiexifDump buildExifObj, PiexifInsert x j,
                SharpWebp None (nat (effectiveQuality (body_quality req))) 4 j',
                ResSet (responseHeaders (newFilename f) out), ResSend out]"
  using assms
  by (auto simp: process_fabricate_def injectExifIntoJpeg_def Let_def
      split: option.splits sum.splits)

lemma send_process_strip:
  assumes "ResSend out \<in> set (process_strip L req)"
  shows "\<exists>f. req_file req = Some f
           \<and> sharp_webp L (Some False) (nat (effectiveQuality (body_quality req))) 4 (buffer f)
               = Inr out
           \<and> process_strip L req =
               [SharpWebp (Some False) (nat (effectiveQuality (body_quality req))) 4 (buffer f),
                ResSet (responseHeaders (newFilename f) out), ResSend out]"
  using assms
  by (auto simp: process_strip_def Let_def split: option.splits sum.splits)

lemma app_fabricate_cases:
  "(\<exists>c p. app_fabricate L req = [ResJson c p]) \<or> app_fabricate L req = process_fabricate L req"
proof (cases "upload_single req")
  case (Inl e)
  then show ?thesis using errorMiddleware_cases[of e] by (auto simp: app_fabricate_def)
next
  case (Inr r)
  then show ?thesis using upload_single_keeps[OF Inr] by (simp add: app_fabricate_def)
qed

lemma app_strip_cases:
  "(\<exists>c p. app_strip L req = [ResJson c p]) \<or> app_strip L req = process_strip L req"
proof (cases "upload_single req")
  case (Inl e)
  then show ?thesis using errorMiddleware_cases[of e] by (auto simp: app_strip_def)
next
  case (Inr r)
  then show ?thesis using upload_single_keeps[OF Inr] by (simp add: app_strip_def)
qed

lemma send_app_fabricate:
  assumes "ResSend out \<in> set (app_fabricate L req)"
  shows "app_fabricate L req = process_fabricate L req"
  using assms app_fabricate_cases[of L req] by auto

lemma send_app_strip:
  assumes "ResSend out \<in> set (app_strip L req)"
  shows "app_strip L req = process_strip L req"
  using assms app_strip_cases[of L req] by auto



lemma dump_process_fabricate:
  assumes "PiexifDump obj \<in> set (process_fabricate L req)"
  shows "obj = buildExifObj"
  using assms
  by (auto simp: process_fabricate_def injectExifIntoJpeg_def Let_def
      split: option.splits sum.splits)





text \<open>
  A trace that answers a failed call with a response that is no error response is not
  fail-stop.
\<close>

lemma fail_stop_needs_error_response:
  "\<not> fail_stop stub_libs [SharpJpeg 95 [], ResJson 200 [(''status'', ''ok'')]]"
  by (simp add: fail_stop_def isErrorResponse_def isSend_def)

text \<open>
  C9. In both variants, whatever the request and whatever the libraries do: the trace
  holds exactly one response and ends with it; that response either sends the image
  bytes or is an error response (a JSON body with a field \<^verbatim>\<open>error\<close>, sent with
  status 400 or 500); after a call into a library has failed there is no further call,
  no headers are set and no image bytes are sent, and the one response is an error
  response; and image bytes are sent only when every call of the chain has returned a
  buffer, as the last event of the trace.
\<close>

theorem pipeline_fail_stop:
  "fail_stop L (app_fabricate L req) \<and> fail_stop L (app_strip L req)
   \<and> (\<forall>out. ResSend out \<in> set (app_fabricate L req)
        \<longrightarrow> (\<exists>f j x j'. req_file req = Some f
               \<and> sharp_jpeg L 95 (buffer f) = Inr j
               \<and> piexif_dump L buildExifObj = Inr x
               \<and> piexif_insert L x j = Inr j'
               \<and> sharp_webp L None (nat (effectiveQuality (body_quality req))) 4 j' = Inr out
               \<and> last (app_fabricate L req) = ResSend out))
   \<and> (\<forall>out. ResSend out \<in> set (app_strip L req)
        \<longrightarrow> (\<exists>f. req_file req = Some f
               \<and> sharp_webp L (Some False) (nat (effectiveQuality (body_quality req))) 4 (buffer f)
                   = Inr out
               \<and> last (app_strip L req) = ResSend out))"
proof (intro conjI allI impI)
  show "fail_stop L (app_fabricate L req)" by (rule fail_stop_app)
  show "fail_stop L (app_strip L req)" by (rule fail_stop_app)
next
  fix out
  assume a: "ResSend out \<in> set (app_fabricate L req)"
  then have eq: "app_fabricate L req = process_fabricate L req"
    by (rule send_app_fabricate)
  from a eq have "ResSend out \<in> set (process_fabricate L req)" by simp
  from send_process_fabricate[OF this] eq
  show "\<exists>f j x j'. req_file req = Some f
          \<and> sharp_jpeg L 95 (buffer f) = Inr j
          \<and> piexif_dump L buildExifObj = Inr x
          \<and> piexif_insert L x j = Inr j'
          \<and> sharp_webp L None (nat (effectiveQuality (body_quality req))) 4 j' = Inr out
          \<and> last (app_fabricate L req) = ResSend out"
    by auto
next
  fix out
  assume a: "ResSend out \<in> set (app_strip L req)"
  then have eq: "app_strip L req = process_strip L req"
    by (rule send_app_strip)
  from a eq have "ResSend out \<in> set (process_strip L req)" by simp
  from send_process_strip[OF this] eq
  show "\<exists>f. req_file req = Some f
          \<and> sharp_webp L (Some False) (nat (effectiveQuality (body_quality req))) 4 (buffer f)
              = Inr out
          \<and> last (app_strip L req) = ResSend out"
    by auto
qed

theorem pipeline_fail_stop_witness:
  "fail_stop stub_libs (app_fabricate stub_libs corrupt_request)
   \<and> isErrorResponse (last (app_fabricate stub_libs corrupt_request))
   \<and> stageFailed stub_libs (SharpJpeg 95 [])
   \<and> app_fabricate stub_libs corrupt_request
       = [SharpJpeg 95 [], ResJson 400 [(''error'', corruptImageMessage)]]
   \<and> fail_stop stub_libs (app_strip stub_libs (sample_request None))
   \<and> last (app_strip stub_libs (sample_request None)) = ResSend [0x52, 0x49, 0x46, 0x46]"
proof -
  have a: "fail_stop stub_libs (app_fabricate stub_libs corrupt_request)"
    using pipeline_fail_stop[of stub_libs corrupt_request] by blast
  have b: "fail_stop stub_libs (app_strip stub_libs (sample_request None))"
    using pipeline_fail_stop[of stub_libs "sample_request None"] by blast
  have c: "stageFailed stub_libs (SharpJpeg 95 [])"
    by (simp add: stageFailed_def stageResult_def stub_libs_def)
  have d: "last (app_strip stub_libs (sample_request None)) = ResSend [0x52, 0x49, 0x46, 0x46]"
    by (simp add: sample_strip_run)
  have "list_ex (stageFailed stub_libs) (app_fabricate stub_libs corrupt_request)"
    using c by (simp add: corrupt_fabricate_run)
  with a have e: "isErrorResponse (last (app_fabricate stub_libs corrupt_request))"
    by (simp add: fail_stop_def)
  show ?thesis using a b c d e corrupt_fabricate_run by blast
qed

section \<open>The output file name: properties\<close>












section \<open>Error payloads\<close>

lemma errorMiddleware_upload:
  assumes "upload_single req = Inl e"
  shows "errorMiddleware e = ResJson 400 [(''error'', invalidFileType)]
       \<or> errorMiddleware e = ResJson 400 [(''error'', ''File size too large. Maximum size is 50MB.'')]"
  using assms
  by (auto simp: upload_single_def fileFilter_def errorMiddleware_def
      split: option.splits if_splits)

text \<open>
  In the fabricating variant every response with status 400 carries one of four fixed
  messages and nothing else, whatever the libraries throw.
\<close>

lemma fabricate_client_faults_fixed:
  assumes "ResJson 400 p \<in> set (app_fabricate L req)"
  shows "p \<in> {[(''error'', noImageMessage)], [(''error'', corruptImageMessage)],
              [(''error'', invalidFileType)],
              [(''error'', ''File size too large. Maximum size is 50MB.'')]}"
proof (cases "upload_single req")
  case (Inl e)
  then show ?thesis
    using assms errorMiddleware_upload[OF Inl] by (auto simp: app_fabricate_def)
next
  case (Inr r)
  then have "ResJson 400 p \<in> set (process_fabricate L r)"
    using assms by (simp add: app_fabricate_def)
  then show ?thesis
    by (auto simp: process_fabricate_def injectExifIntoJpeg_def Let_def
        split: option.splits sum.splits)
qed

text \<open>
  C8. Client-fault responses are to carry a fixed message and no detail of the codec.
  The stripping variant does not meet this for a decode error: when the upload passes
  the filter and \<^verbatim>\<open>sharp\<close> throws on it, the one error payload of the request is
  the fixed message together with a field \<^verbatim>\<open>details\<close> that holds the message of
  the error \<^verbatim>\<open>sharp\<close> threw. (The fabricating variant meets it:
  \<open>fabricate_client_faults_fixed\<close>.)
\<close>

theorem strip_decode_error_exposes_codec_message:
  assumes "upload_single req = Inr req"
    and "req_file req = Some f"
    and "sharp_webp L (Some False) (nat (effectiveQuality (body_quality req))) 4 (buffer f) = Inl m"
  shows "errorPayloads (app_strip L req)
           = [[(''error'', corruptImageMessage), (''details'', m)]]"
  using assms by (simp add: app_strip_def process_strip_def errorPayloads_def)

theorem strip_decode_error_exposes_codec_message_witness:
  "upload_single corrupt_request = Inr corrupt_request
   \<and> req_file corrupt_request = Some empty_upload
   \<and> sharp_webp stub_libs (Some False) 75 4 (buffer empty_upload) = Inl ''Input Buffer is empty''
   \<and> errorPayloads (app_strip stub_libs corrupt_request)
       = [[(''error'', corruptImageMessage), (''details'', ''Input Buffer is empty'')]]"
proof -
  have a: "upload_single corrupt_request = Inr corrupt_request"
    by (simp add: upload_unfold)
  have b: "req_file corrupt_request = Some empty_upload"
    by (simp add: corrupt_request_def)
  have q: "nat (effectiveQuality (body_quality corrupt_request)) = 75"
    by (simp add: corrupt_request_def effectiveQuality_def parseInt_absent orDefault_def)
  have c: "sharp_webp stub_libs (Some False)
             (nat (effectiveQuality (body_quality corrupt_request))) 4 (buffer empty_upload)
           = Inl ''Input Buffer is empty''"
    by (simp add: q stub_libs_def empty_upload_def)
  from strip_decode_error_exposes_codec_message[OF a b c] a b c q
  show ?thesis by simp
qed

section \<open>The metadata of the final output\<close>

text \<open>
  The record that the fabricating route hands to \<^verbatim>\<open>piexifjs.dump\<close> is the fixed one,
  whatever the upload holds.
\<close>

lemma dumped_record_is_fixed:
  assumes "PiexifDump obj \<in> set (app_fabricate L req)"
  shows "obj = buildExifObj"
proof -
  have "PiexifDump obj \<in> set (process_fabricate L req)"
    using assms app_fabricate_cases[of L req] by auto
  then show ?thesis by (rule dump_process_fabricate)
qed

text \<open>
  C2. The final output of the fabricating route is to carry the fixed record. The
  record is built and inserted into the intermediate JPEG (\<open>dumped_record_is_fixed\<close>
  and \<open>injection_between_transcodings\<close>), but the final transcoding is
  \<^verbatim>\<open>sharp(jpegWithExif).webp({quality, effort: 4}).toBuffer()\<close>, with no call of
  \<^verbatim>\<open>withMetadata\<close>. By the documented default of \<^verbatim>\<open>sharp\<close>, an output for
  which \<^verbatim>\<open>withMetadata\<close> was not called carries no metadata; this default is the
  hypothesis on the library (\<open>strips_metadata_by_default\<close>). Under it, the bytes
  that the fabricating route sends carry no metadata record at all.
\<close>

theorem fabricate_output_carries_no_metadata:
  assumes "strips_metadata_by_default L readExif"
    and "ResSend out \<in> set (app_fabricate L req)"
  shows "readExif out = None"
proof -
  have eq: "app_fabricate L req = process_fabricate L req"
    using assms(2) by (rule send_app_fabricate)
  with assms(2) have "ResSend out \<in> set (process_fabricate L req)" by simp
  from send_process_fabricate[OF this] obtain j'
    where "sharp_webp L None (nat (effectiveQuality (body_quality req))) 4 j' = Inr out"
    by blast
  with assms(1) show ?thesis unfolding strips_metadata_by_default_def by blast
qed

theorem fabricate_output_carries_no_metadata_witness:
  "strips_metadata_by_default stub_libs stub_readExif
   \<and> ResSend [0x52, 0x49, 0x46, 0x46] \<in> set (app_fabricate stub_libs (sample_request (Some ''90'')))
   \<and> stub_readExif [0xFF, 0xD8, 0xFF, 0xE1, 0x45, 0x78, 0x69, 0x66, 0xFF, 0xD9] = Some buildExifObj
   \<and> stub_readExif [0x52, 0x49, 0x46, 0x46] = None"
proof -
  have a: "strips_metadata_by_default stub_libs stub_readExif"
    by (auto simp: strips_metadata_by_default_def stub_libs_def stub_readExif_def
        split: if_splits)
  have b: "ResSend [0x52, 0x49, 0x46, 0x46]
             \<in> set (app_fabricate stub_libs (sample_request (Some ''90'')))"
    by (simp add: sample_fabricate_run)
  have c: "stub_readExif [0xFF, 0xD8, 0xFF, 0xE1, 0x45, 0x78, 0x69, 0x66, 0xFF, 0xD9]
             = Some buildExifObj"
    by (simp add: stub_readExif_def)
  from fabricate_output_carries_no_metadata[OF a b] a b c
  show ?thesis by blast
qed


section \<open>The coordinate encoder: properties\<close>

lemma fl_error2:
  assumes "- B \<le> x" and "x \<le> B" and "1 \<le> B"
  shows "fl x - x \<le> B / 2 ^ 53" and "x - fl x \<le> B / 2 ^ 53"
proof -
  have "\<bar>x\<bar> \<le> B" using assms by linarith
  then have "\<bar>fl x - x\<bar> \<le> B / 2 ^ 53" using assms(3) by (rule fl_error)
  then show "fl x - x \<le> B / 2 ^ 53" and "x - fl x \<le> B / 2 ^ 53" by linarith+
qed

lemma seconds_error:
  fixes a :: rat
  assumes "0 \<le> a"
  shows "\<bar>js_mul (js_sub (js_sub a (of_int \<lfloor>a\<rfloor>))
                  (js_div (of_int \<lfloor>js_mul (js_sub a (of_int \<lfloor>a\<rfloor>)) 60\<rfloor>) 60)) 3600
          - 3600 * (a - of_int \<lfloor>a\<rfloor> - of_int \<lfloor>js_mul (js_sub a (of_int \<lfloor>a\<rfloor>)) 60\<rfloor> / 60)\<bar>
         \<le> 61200 / 2 ^ 53"
    and "\<bar>js_mul (js_sub (js_sub a (of_int \<lfloor>a\<rfloor>))
                  (js_div (of_int \<lfloor>js_mul (js_sub a (of_int \<lfloor>a\<rfloor>)) 60\<rfloor>) 60)) 3600\<bar>
         \<le> 25201"
proof -
  define f0 where "f0 = a - of_int \<lfloor>a\<rfloor>"
  define f1 where "f1 = fl f0"
  define m1 where "m1 = fl (f1 * 60)"
  define mn where "mn = \<lfloor>m1\<rfloor>"
  define q where "q = fl (of_int mn / 60)"
  define d1 where "d1 = fl (f1 - q)"
  define s where "s = fl (d1 * 3600)"
  define u :: rat where "u = 1 / 2 ^ 53"
  have u: "0 < u" "u \<le> 1 / 1000000" unfolding u_def by simp_all
  have f0: "0 \<le> f0" "f0 < 1" unfolding f0_def by linarith+
  have e1: "f1 - f0 \<le> u" "f0 - f1 \<le> u"
    using fl_error2[of 1 f0] f0 unfolding f1_def u_def by simp_all
  have b2: "- 120 \<le> f1 * 60" "f1 * 60 \<le> 120" using e1 f0 u by linarith+
  have e2: "m1 - f1 * 60 \<le> 120 * u" "f1 * 60 - m1 \<le> 120 * u"
    using fl_error2[OF b2] unfolding m1_def u_def by simp_all
  have mn1: "of_int mn \<le> m1" "m1 < of_int mn + 1" unfolding mn_def by linarith+
  have b3: "- 3 \<le> (of_int mn / 60 :: rat)" "(of_int mn / 60 :: rat) \<le> 3"
    using mn1 e2 e1 f0 u by linarith+
  have e3: "q - of_int mn / 60 \<le> 3 * u" "of_int mn / 60 - q \<le> 3 * u"
    using fl_error2[OF b3] unfolding q_def u_def by simp_all
  have b4: "- 6 \<le> f1 - q" "f1 - q \<le> 6" using e3 b3 e1 f0 u by linarith+
  have e4: "d1 - (f1 - q) \<le> 6 * u" "(f1 - q) - d1 \<le> 6 * u"
    using fl_error2[OF b4] unfolding d1_def u_def by simp_all
  have b5: "- 25200 \<le> d1 * 3600" "d1 * 3600 \<le> 25200" using e4 b4 u by linarith+
  have e5: "s - d1 * 3600 \<le> 25200 * u" "d1 * 3600 - s \<le> 25200 * u"
    using fl_error2[OF b5] unfolding s_def u_def by simp_all
  have r1a: "s - (3600 * f0 - 60 * of_int mn) \<le> 61200 * u"
    using e5 e4 e3 e1 by linarith
  have r1b: "(3600 * f0 - 60 * of_int mn) - s \<le> 61200 * u"
    using e5 e4 e3 e1 by linarith
  have "\<bar>s - (3600 * f0 - 60 * of_int mn)\<bar> \<le> 61200 * u"
    using r1a r1b by linarith
  moreover have "3600 * (f0 - of_int mn / 60) = 3600 * f0 - 60 * of_int mn"
    by (simp add: algebra_simps)
  ultimately have r1: "\<bar>s - 3600 * (f0 - of_int mn / 60)\<bar> \<le> 61200 * u"
    by simp
  have r2: "\<bar>s\<bar> \<le> 25201" using e5 b5 u by linarith
  have unf2: "\<lfloor>js_mul (js_sub a (of_int \<lfloor>a\<rfloor>)) 60\<rfloor> = mn"
    by (simp add: js_mul_def js_sub_def mn_def m1_def f1_def f0_def)
  have unf1: "js_mul (js_sub (js_sub a (of_int \<lfloor>a\<rfloor>)) (js_div (of_int mn) 60)) 3600 = s"
    by (simp add: js_mul_def js_sub_def js_div_def s_def d1_def q_def f1_def f0_def)
  have r1': "\<bar>s - 3600 * (a - of_int \<lfloor>a\<rfloor> - of_int mn / 60)\<bar> \<le> 61200 / 2 ^ 53"
    using r1 unfolding f0_def u_def by simp
  show "\<bar>js_mul (js_sub (js_sub a (of_int \<lfloor>a\<rfloor>))
                  (js_div (of_int \<lfloor>js_mul (js_sub a (of_int \<lfloor>a\<rfloor>)) 60\<rfloor>) 60)) 3600
          - 3600 * (a - of_int \<lfloor>a\<rfloor> - of_int \<lfloor>js_mul (js_sub a (of_int \<lfloor>a\<rfloor>)) 60\<rfloor> / 60)\<bar>
         \<le> 61200 / 2 ^ 53"
    unfolding unf2 unf1 by (rule r1')
  show "\<bar>js_mul (js_sub (js_sub a (of_int \<lfloor>a\<rfloor>))
                  (js_div (of_int \<lfloor>js_mul (js_sub a (of_int \<lfloor>a\<rfloor>)) 60\<rfloor>) 60)) 3600\<bar>
         \<le> 25201"
    unfolding unf2 unf1 by (rule r2)
qed


lemma floor_int_half: "\<lfloor>of_int k + (1 / 2 :: rat)\<rfloor> = k"
  by (rule floor_unique) simp_all

lemma numerator_readback:
  assumes "\<bar>s\<bar> \<le> 25201"
  shows "Math_round (js_mul (parseFloat (toFixed2 s)) 100) = \<lfloor>round2 s * 100 + 1 / 2\<rfloor>"
proof -
  define n where "n = \<lfloor>\<bar>s\<bar> * 100 + 1 / 2\<rfloor>"
  have n0: "0 \<le> n" unfolding n_def by (simp add: floor_le_iff[symmetric]) 
  have "\<bar>s\<bar> * 100 + 1 / 2 \<le> 2520101" using assms by linarith
  then have "n \<le> 2520101" unfolding n_def by (simp add: floor_le_iff) 
  then have n1: "n \<le> 2 ^ 27" by simp
  have "(25201::rat) < 10 ^ 21" by simp
  then have small: "\<not> 10 ^ 21 \<le> \<bar>s\<bar>" using assms by linarith
  show ?thesis
  proof (cases "s < 0")
    case True
    have "Math_round (fl (- fl (of_int n / 100) * 100)) = - n"
      by (rule Math_round_near) (rule hundredths_readback(2)[OF n0 n1])
    moreover have "\<lfloor>round2 s * 100 + 1 / 2\<rfloor> = - n"
    proof -
      have "round2 s * 100 + 1 / 2 = of_int (- n) + 1 / 2"
        using True by (simp add: round2_def n_def)
      then show ?thesis by (simp only: floor_int_half)
    qed
    ultimately show ?thesis
      using True small by (simp add: toFixed2_def parseFloat_def js_mul_def n_def)
  next
    case False
    have "Math_round (fl (fl (of_int n / 100) * 100)) = n"
      by (rule Math_round_near) (rule hundredths_readback(1)[OF n0 n1])
    moreover have "\<lfloor>round2 s * 100 + 1 / 2\<rfloor> = n"
    proof -
      have "round2 s * 100 + 1 / 2 = of_int n + 1 / 2"
        using False by (simp add: round2_def n_def)
      then show ?thesis by (simp only: floor_int_half)
    qed
    ultimately show ?thesis
      using False small by (simp add: toFixed2_def parseFloat_def js_mul_def n_def)
  qed
qed

lemma convertGPSToExif_spec: "convertGPSToExif lat0 lng0 = spec_encode lat0 lng0"
  unfolding convertGPSToExif_def spec_encode_def spec_dms_def Let_def Math_floor_def
  using numerator_readback[OF seconds_error(2)[of "\<bar>lat0\<bar>"]]
        numerator_readback[OF seconds_error(2)[of "\<bar>lng0\<bar>"]]
  by simp


lemma round2_error: "\<bar>round2 s - s\<bar> \<le> 1 / 200"
proof -
  define n where "n = \<lfloor>\<bar>s\<bar> * 100 + 1 / 2\<rfloor>"
  have a: "of_int n \<le> \<bar>s\<bar> * 100 + 1 / 2" and b: "\<bar>s\<bar> * 100 + 1 / 2 < of_int n + 1"
    unfolding n_def by linarith+
  show ?thesis
  proof (cases "s < 0")
    case True
    then have "round2 s = - (of_int n / 100)" by (simp add: round2_def n_def)
    then show ?thesis using a b True by linarith
  next
    case False
    then have "round2 s = of_int n / 100" by (simp add: round2_def n_def)
    then show ?thesis using a b False by linarith
  qed
qed

lemma round2_hundredths: "of_int \<lfloor>round2 s * 100 + 1 / 2\<rfloor> = round2 s * 100"
proof -
  define n where "n = \<lfloor>\<bar>s\<bar> * 100 + 1 / 2\<rfloor>"
  show ?thesis
  proof (cases "s < 0")
    case True
    then have "round2 s * 100 + 1 / 2 = of_int (- n) + 1 / 2" by (simp add: round2_def n_def)
    then have "\<lfloor>round2 s * 100 + 1 / 2\<rfloor> = - n" by (simp only: floor_int_half)
    then show ?thesis using True by (simp add: round2_def n_def)
  next
    case False
    then have "round2 s * 100 + 1 / 2 = of_int n + 1 / 2" by (simp add: round2_def n_def)
    then have "\<lfloor>round2 s * 100 + 1 / 2\<rfloor> = n" by (simp only: floor_int_half)
    then show ?thesis using False by (simp add: round2_def n_def)
  qed
qed

lemma spec_dms_roundtrip:
  assumes "0 \<le> a"
  shows "\<bar>dmsValue (spec_dms a) - a\<bar> \<le> 1 / 360000"
proof -
  define mn where "mn = \<lfloor>js_mul (js_sub a (of_int \<lfloor>a\<rfloor>)) 60\<rfloor>"
  define s where "s = js_mul (js_sub (js_sub a (of_int \<lfloor>a\<rfloor>)) (js_div (of_int mn) 60)) 3600"
  have e: "\<bar>s - 3600 * (a - of_int \<lfloor>a\<rfloor> - of_int mn / 60)\<bar> \<le> 61200 / 2 ^ 53"
    unfolding s_def mn_def by (rule seconds_error(1)[OF assms])
  then have e': "\<bar>s - (3600 * a - 3600 * of_int \<lfloor>a\<rfloor> - 60 * of_int mn)\<bar> \<le> 1 / 1000000"
    by (simp add: algebra_simps)
  have r: "\<bar>round2 s - s\<bar> \<le> 1 / 200" by (rule round2_error)
  have v: "dmsValue (spec_dms a)
             = of_int \<lfloor>a\<rfloor> + of_int mn / 60 + round2 s / 3600"
    by (simp add: dmsValue_def spec_dms_def Let_def mn_def[symmetric] s_def[symmetric]
        round2_hundredths)
  have "\<bar>3600 * of_int \<lfloor>a\<rfloor> + 60 * of_int mn + round2 s - 3600 * a\<bar> \<le> 1 / 100"
    using e' r by linarith
  then have "\<bar>of_int \<lfloor>a\<rfloor> + of_int mn / 60 + round2 s / 3600 - a\<bar> \<le> 1 / 360000"
    by linarith
  then show ?thesis by (simp only: v)
qed

lemma signed_roundtrip:
  fixes v x c :: rat
  assumes "\<bar>v - \<bar>x\<bar>\<bar> \<le> c"
  shows "\<bar>(if 0 \<le> x then v else - v) - x\<bar> \<le> c"
proof (cases "0 \<le> x")
  case True
  then show ?thesis using assms by simp
next
  case False
  then have "\<bar>- v - x\<bar> = \<bar>v - \<bar>x\<bar>\<bar>" by linarith
  then show ?thesis using assms False by simp
qed

lemma reconstruct_roundtrip:
  "\<bar>reconstruct (latRef (convertGPSToExif lat0 lng0)) (lat (convertGPSToExif lat0 lng0)) - lat0\<bar>
     \<le> 1 / 360000"
  "\<bar>reconstruct (lngRef (convertGPSToExif lat0 lng0)) (lng (convertGPSToExif lat0 lng0)) - lng0\<bar>
     \<le> 1 / 360000"
proof -
  have a: "\<bar>dmsValue (spec_dms \<bar>lat0\<bar>) - \<bar>lat0\<bar>\<bar> \<le> 1 / 360000"
    by (rule spec_dms_roundtrip) simp
  have b: "\<bar>dmsValue (spec_dms \<bar>lng0\<bar>) - \<bar>lng0\<bar>\<bar> \<le> 1 / 360000"
    by (rule spec_dms_roundtrip) simp
  have c: "reconstruct (latRef (convertGPSToExif lat0 lng0)) (lat (convertGPSToExif lat0 lng0))
             = (if 0 \<le> lat0 then dmsValue (spec_dms \<bar>lat0\<bar>) else - dmsValue (spec_dms \<bar>lat0\<bar>))"
    by (simp add: convertGPSToExif_spec spec_encode_def reconstruct_def)
  have d: "reconstruct (lngRef (convertGPSToExif lat0 lng0)) (lng (convertGPSToExif lat0 lng0))
             = (if 0 \<le> lng0 then dmsValue (spec_dms \<bar>lng0\<bar>) else - dmsValue (spec_dms \<bar>lng0\<bar>))"
    by (simp add: convertGPSToExif_spec spec_encode_def reconstruct_def)
  show "\<bar>reconstruct (latRef (convertGPSToExif lat0 lng0)) (lat (convertGPSToExif lat0 lng0)) - lat0\<bar>
     \<le> 1 / 360000"
    unfolding c using a by (rule signed_roundtrip)
  show "\<bar>reconstruct (lngRef (convertGPSToExif lat0 lng0)) (lng (convertGPSToExif lat0 lng0)) - lng0\<bar>
     \<le> 1 / 360000"
    unfolding d using b by (rule signed_roundtrip)
qed


text \<open>
  C1. For every pair of Numbers, \<^verbatim>\<open>convertGPSToExif\<close> returns the hemisphere
  references by sign (\<open>N\<close> and \<open>E\<close> for a non-negative input, \<open>S\<close> and \<open>W\<close> for a
  negative one) and, per axis, the triplet of \<open>spec_dms\<close> on the absolute value:
  floored degrees and floored minutes over 1, and the seconds rounded to two decimal
  places as \<open>round (seconds \<times> 100)\<close> over 100. The detour of the program through
  \<^verbatim>\<open>toFixed(2)\<close>, \<^verbatim>\<open>parseFloat\<close>, a Number multiplication by 100 and
  \<^verbatim>\<open>Math.round\<close> yields exactly that integer of hundredths.
\<close>

theorem encoder_follows_algorithm:
  "convertGPSToExif lat0 lng0 =
     \<lparr> latRef = (if 0 \<le> lat0 then CHR ''N'' else CHR ''S''),
       lngRef = (if 0 \<le> lng0 then CHR ''E'' else CHR ''W''),
       lat = spec_dms \<bar>lat0\<bar>,
       lng = spec_dms \<bar>lng0\<bar> \<rparr>"
  using convertGPSToExif_spec[of lat0 lng0] by (simp add: spec_encode_def)

section \<open>The encoder on particular coordinates\<close>

lemma fixed_gps:
  "convertGPSToExif (GPSLatitude FIXED_EXIF) (GPSLongitude FIXED_EXIF) =
     \<lparr> latRef = CHR ''N'', lngRef = CHR ''W'',
       lat = [(40, 1), (44, 1), (5574, 100)], lng = [(73, 1), (59, 1), (754, 100)] \<rparr>"
  by code_simp

lemma buildExifObj_value:
  "buildExifObj =
     \<lparr> ifd_0th = [(ImageIFD_Make, Ascii ''Canon''),
                  (ImageIFD_Model, Ascii ''Canon EOS 5D Mark IV''),
                  (ImageIFD_Software, Ascii ''Adobe Photoshop Lightroom'')],
       ifd_Exif = [],
       ifd_GPS = [(GPSIFD_GPSLatitudeRef, Ascii ''N''),
                  (GPSIFD_GPSLatitude, Rationals [(40, 1), (44, 1), (5574, 100)]),
                  (GPSIFD_GPSLongitudeRef, Ascii ''W''),
                  (GPSIFD_GPSLongitude, Rationals [(73, 1), (59, 1), (754, 100)])] \<rparr>"
  by (simp add: buildExifObj_def Let_def fixed_gps) (simp add: FIXED_EXIF_def)

lemma fixed_in_range: "\<bar>GPSLatitude FIXED_EXIF\<bar> \<le> 90" "\<bar>GPSLongitude FIXED_EXIF\<bar> \<le> 180"
  by code_simp+

lemma sixty_number: "fl (9999999 / 10000000) = 9007198354021067 / 2 ^ 53"
  by code_simp

text \<open>
  Two well-known Numbers as a check of the rounding: \<^verbatim>\<open>0.1 + 0.2\<close> is
  \<^verbatim>\<open>0.30000000000000004\<close>, and \<^verbatim>\<open>0.3 * 60\<close> is exactly 18 although the Number
  of \<^verbatim>\<open>0.3\<close> lies below three tenths.
\<close>

lemma fl_known_values:
  "fl (fl (1 / 10) + fl (2 / 10)) = 5404319552844596 / 2 ^ 54"
  "fl (3 / 10) < 3 / 10"
  "fl (fl (3 / 10) * 60) = 18"
  by code_simp+

lemma sixty_lat:
  "lat (convertGPSToExif (fl (9999999 / 10000000)) 0) = [(0, 1), (59, 1), (6000, 100)]"
  by code_simp

text \<open>
  C4. For every latitude in \<open>[-90,90]\<close> and longitude in \<open>[-180,180]\<close>, the value
  read back from the hemisphere reference and the triplet, in exact arithmetic, differs
  from the input by at most \<open>1/360000\<close> of a degree. The bound needs no exception: it
  holds as well where the seconds round to 60.00.
\<close>

theorem roundtrip_within_tolerance:
  assumes "\<bar>lat0\<bar> \<le> 90" and "\<bar>lng0\<bar> \<le> 180"
  shows "\<bar>reconstruct (latRef (convertGPSToExif lat0 lng0)) (lat (convertGPSToExif lat0 lng0))
           - lat0\<bar> \<le> 1 / 360000
       \<and> \<bar>reconstruct (lngRef (convertGPSToExif lat0 lng0)) (lng (convertGPSToExif lat0 lng0))
           - lng0\<bar> \<le> 1 / 360000"
  using reconstruct_roundtrip[of lat0 lng0] by simp

theorem roundtrip_within_tolerance_witness:
  "\<bar>GPSLatitude FIXED_EXIF\<bar> \<le> 90 \<and> \<bar>GPSLongitude FIXED_EXIF\<bar> \<le> 180
   \<and> \<bar>reconstruct CHR ''N'' [(40, 1), (44, 1), (5574, 100)] - GPSLatitude FIXED_EXIF\<bar>
       \<le> 1 / 360000
   \<and> \<bar>reconstruct CHR ''W'' [(73, 1), (59, 1), (754, 100)] - GPSLongitude FIXED_EXIF\<bar>
       \<le> 1 / 360000
   \<and> \<bar>reconstruct CHR ''N'' [(0, 1), (59, 1), (6000, 100)] - fl (9999999 / 10000000)\<bar>
       \<le> 1 / 360000"
proof -
  have a: "\<bar>reconstruct CHR ''N'' [(40, 1), (44, 1), (5574, 100)] - GPSLatitude FIXED_EXIF\<bar>
             \<le> 1 / 360000
         \<and> \<bar>reconstruct CHR ''W'' [(73, 1), (59, 1), (754, 100)] - GPSLongitude FIXED_EXIF\<bar>
             \<le> 1 / 360000"
    using roundtrip_within_tolerance[OF fixed_in_range] by (simp add: fixed_gps)
  have r: "\<bar>fl (9999999 / 10000000)\<bar> \<le> 90" "\<bar>0 :: rat\<bar> \<le> 180"
    by (simp_all add: sixty_number)
  have n: "latRef (convertGPSToExif (fl (9999999 / 10000000)) 0) = CHR ''N''"
    by (simp add: convertGPSToExif_def Let_def sixty_number)
  have b: "\<bar>reconstruct CHR ''N'' [(0, 1), (59, 1), (6000, 100)] - fl (9999999 / 10000000)\<bar>
             \<le> 1 / 360000"
    using roundtrip_within_tolerance[OF r] by (simp only: n sixty_lat)
  show ?thesis using fixed_in_range a b by blast
qed

text \<open>
  C5. The Number of the literal \<^verbatim>\<open>0.9999999\<close> is encoded as 0 degrees, 59 minutes
  and 6000/100 seconds: the seconds round to 60.00 and the minutes are not incremented.
  For every input the minutes field is the plain floor of the Number product, whatever
  the seconds round to; nothing carries from the seconds into the minutes.
\<close>

theorem seconds_sixty_without_carry:
  "fl (9999999 / 10000000) = 9007198354021067 / 2 ^ 53
   \<and> lat (convertGPSToExif (fl (9999999 / 10000000)) 0) = [(0, 1), (59, 1), (6000, 100)]
   \<and> (\<forall>lat0 lng0.
         lat (convertGPSToExif lat0 lng0) ! 1
           = (Math_floor (js_mul (js_sub \<bar>lat0\<bar> (of_int (Math_floor \<bar>lat0\<bar>))) 60), 1)
       \<and> lng (convertGPSToExif lat0 lng0) ! 1
           = (Math_floor (js_mul (js_sub \<bar>lng0\<bar> (of_int (Math_floor \<bar>lng0\<bar>))) 60), 1))"
proof -
  have "\<forall>lat0 lng0.
         lat (convertGPSToExif lat0 lng0) ! 1
           = (Math_floor (js_mul (js_sub \<bar>lat0\<bar> (of_int (Math_floor \<bar>lat0\<bar>))) 60), 1)
       \<and> lng (convertGPSToExif lat0 lng0) ! 1
           = (Math_floor (js_mul (js_sub \<bar>lng0\<bar> (of_int (Math_floor \<bar>lng0\<bar>))) 60), 1)"
    by (simp add: convertGPSToExif_def Let_def)
  then show ?thesis using sixty_number sixty_lat by blast
qed

end
